theory Spec2Isabelle
  imports Complex_Main
begin

section \<open>Values and static types\<close>

text \<open>
  The library is generic over the value type \<open>T\<close>. The embedding names the static types the
  templates distinguish (\<open>std::is_integral\<close>, \<open>std::is_floating_point\<close>, \<open>std::string\<close>, anything
  else) and keeps the values of all of them in one universe, so that a
  \<open>std::tuple<Fields...>\<close> is a list of values whose i-th entry has the i-th static type.

  \<^item> \<open>T_int\<close> is \<open>int\<close> (32 bit, two's complement), \<open>T_char\<close> is \<open>char\<close> (8 bit, signed):
    the integral types;
  \<^item> \<open>T_double\<close> is \<open>double\<close>: a finite value is the rational it denotes, next to the two
    infinities and NaN;
  \<^item> \<open>T_string\<close> is \<open>std::string\<close>;
  \<^item> \<open>T_other\<close> is any other default-constructible class type with stream operators; its
    objects are opaque and stand as natural-number codes, the default-constructed one as 0.
\<close>

datatype cpp_type = T_int | T_char | T_double | T_string | T_other

datatype fp = FP_finite rat | FP_pos_inf | FP_neg_inf | FP_nan

datatype cpp_value =
    V_int (the_int: int)
  | V_char (the_char: char)
  | V_double (the_double: fp)
  | V_string (the_string: string)
  | V_other (the_other: nat)

fun is_integral :: "cpp_type \<Rightarrow> bool" where
  "is_integral T_int = True"
| "is_integral T_char = True"
| "is_integral _ = False"

fun is_floating_point :: "cpp_type \<Rightarrow> bool" where
  "is_floating_point T_double = True"
| "is_floating_point _ = False"

definition is_arithmetic :: "cpp_type \<Rightarrow> bool" where
  "is_arithmetic T = (is_integral T \<or> is_floating_point T)"

fun isnan :: "fp \<Rightarrow> bool" where
  "isnan FP_nan = True"
| "isnan _ = False"

fun isinf :: "fp \<Rightarrow> bool" where
  "isinf FP_pos_inf = True"
| "isinf FP_neg_inf = True"
| "isinf _ = False"

text \<open>Value initialisation \<open>T()\<close>: zero for the scalar types, the empty string, the default object.\<close>

fun value_init :: "cpp_type \<Rightarrow> cpp_value" where
  "value_init T_int = V_int 0"
| "value_init T_char = V_char (CHR 0x00)"
| "value_init T_double = V_double (FP_finite 0)"
| "value_init T_string = V_string []"
| "value_init T_other = V_other 0"

fun has_type :: "cpp_type \<Rightarrow> cpp_value \<Rightarrow> bool" where
  "has_type T_int (V_int n) = (- (2 ^ 31) \<le> n \<and> n < 2 ^ 31)"
| "has_type T_char (V_char _) = True"
| "has_type T_double (V_double _) = True"
| "has_type T_string (V_string _) = True"
| "has_type T_other (V_other _) = True"
| "has_type _ _ = False"

section \<open>validators.h: \<open>InputValidator<T>\<close>\<close>

text \<open>
  The primary template and its three specialisations, selected at compile time by the type:
  integral types first, then floating-point types, then \<open>std::string\<close>, else the primary template.
\<close>

definition InputValidator_is_valid :: "cpp_type \<Rightarrow> cpp_value \<Rightarrow> bool" where
  "InputValidator_is_valid T v =
     (if is_integral T then True
      else if is_floating_point T then \<not> isnan (the_double v) \<and> \<not> isinf (the_double v)
      else if T = T_string then the_string v \<noteq> []
      else True)"

definition InputValidator_type_name :: "cpp_type \<Rightarrow> string" where
  "InputValidator_type_name T =
     (if is_integral T then ''integer''
      else if is_floating_point T then ''number''
      else if T = T_string then ''text''
      else ''value'')"

section \<open>data\_container.h: \<open>DataContainer<Fields...>\<close>\<close>

datatype cpp_exception = invalid_argument string | out_of_range string

text \<open>
  The two private members. The parameter pack \<open>Fields\<close> is a compile-time argument; the
  functions that use \<open>sizeof...(Fields)\<close> or \<open>std::tuple_element_t\<close> take it as a list of types.
\<close>

record DataContainer =
  data :: "cpp_value list"
  field_names :: "string list"

text \<open>
  The constructor copies the names, default-constructs the tuple (which value-initialises
  every element) and then throws when the number of names is not \<open>sizeof...(Fields)\<close>.
\<close>

definition DataContainer_ctor :: "cpp_type list \<Rightarrow> string list \<Rightarrow> cpp_exception + DataContainer" where
  "DataContainer_ctor Fields names =
     (if length names \<noteq> length Fields
      then Inl (invalid_argument ''Number of field names must match number of fields'')
      else Inr \<lparr>data = map value_init Fields, field_names = names\<rparr>)"

text \<open>
  \<open>set_field<Index>\<close> and \<open>get_field<Index>\<close> go through \<open>std::get<Index>\<close>: a program with
  \<open>Index >= sizeof...(Fields)\<close> does not compile, so the theorems below take \<open>Index\<close> within the
  tuple.
\<close>

definition set_field :: "nat \<Rightarrow> cpp_value \<Rightarrow> DataContainer \<Rightarrow> DataContainer" where
  "set_field Index v c = c\<lparr>data := (data c)[Index := v]\<rparr>"

definition get_field :: "nat \<Rightarrow> DataContainer \<Rightarrow> cpp_value" where
  "get_field Index c = data c ! Index"

definition get_field_name :: "nat \<Rightarrow> DataContainer \<Rightarrow> cpp_exception + string" where
  "get_field_name index c =
     (if index \<ge> length (field_names c)
      then Inl (out_of_range ''Field index out of range'')
      else Inr (field_names c ! index))"

definition size_fields :: "cpp_type list \<Rightarrow> DataContainer \<Rightarrow> nat" where
  "size_fields Fields c = length Fields"

text \<open>A run of \<open>set_field\<close> calls, each with its index and value, applied in order.\<close>

definition set_fields :: "(nat \<times> cpp_value) list \<Rightarrow> DataContainer \<Rightarrow> DataContainer" where
  "set_fields ops c = fold (\<lambda>(i, v). set_field i v) ops c"

section \<open>The standard streams\<close>

text \<open>
  \<open>std::cin\<close> is the characters not yet extracted together with the two state bits the code
  looks at; \<open>std::cout\<close> is the characters written so far. The operations follow the C++
  standard's description of \<open>basic_istream\<close>: every input function first constructs a sentry,
  which sets \<open>failbit\<close> and does nothing else when the stream is not \<open>good()\<close>.
\<close>

record istream =
  buf :: string
  eofbit :: bool
  failbit :: bool

record world =
  cin :: istream
  cout :: string

definition newline :: char where
  "newline = CHR 0x0A"

definition isspace :: "char \<Rightarrow> bool" where
  "isspace c = (c \<in> {CHR 0x20, CHR 0x09, CHR 0x0A, CHR 0x0B, CHR 0x0C, CHR 0x0D})"

definition isdigit :: "char \<Rightarrow> bool" where
  "isdigit c = (48 \<le> (of_char c :: nat) \<and> (of_char c :: nat) \<le> 57)"

definition good :: "istream \<Rightarrow> bool" where
  "good s = (\<not> eofbit s \<and> \<not> failbit s)"

definition fail :: "istream \<Rightarrow> bool" where
  "fail s = failbit s"

definition clear :: "istream \<Rightarrow> istream" where
  "clear s = s\<lparr>eofbit := False, failbit := False\<rparr>"

text \<open>
  \<open>istream::sentry(is, noskipws)\<close>. With \<open>noskipws = false\<close> it skips leading whitespace
  (newlines included); reaching the end of the input while skipping sets both bits.
\<close>

definition sentry :: "bool \<Rightarrow> istream \<Rightarrow> bool \<times> istream" where
  "sentry noskipws s =
     (if \<not> good s then (False, s\<lparr>failbit := True\<rparr>)
      else if noskipws then (True, s)
      else (let b = dropWhile isspace (buf s) in
            if b = [] then (False, s\<lparr>buf := [], eofbit := True, failbit := True\<rparr>)
            else (True, s\<lparr>buf := b\<rparr>)))"

text \<open>
  \<open>is.ignore(numeric_limits<streamsize>::max(), '\n')\<close>: discards up to and including the
  next newline; running into the end of the input first sets \<open>eofbit\<close>.
\<close>

definition ignore_line :: "istream \<Rightarrow> istream" where
  "ignore_line s =
     (case sentry True s of
        (False, s') \<Rightarrow> s'
      | (True, s') \<Rightarrow>
          (case dropWhile (\<lambda>c. c \<noteq> newline) (buf s') of
             [] \<Rightarrow> s'\<lparr>buf := [], eofbit := True\<rparr>
           | _ # r \<Rightarrow> s'\<lparr>buf := r\<rparr>))"

text \<open>
  \<open>std::getline(is, str)\<close>: the line up to the next newline, which is extracted and dropped;
  \<open>failbit\<close> when nothing at all was extracted. \<open>str\<close> is left alone when the sentry fails.
\<close>

definition getline :: "istream \<Rightarrow> string \<Rightarrow> string \<times> istream" where
  "getline s str =
     (case sentry True s of
        (False, s') \<Rightarrow> (str, s')
      | (True, s') \<Rightarrow>
          (let line = takeWhile (\<lambda>c. c \<noteq> newline) (buf s') in
           case dropWhile (\<lambda>c. c \<noteq> newline) (buf s') of
             [] \<Rightarrow> (line, s'\<lparr>buf := [], eofbit := True, failbit := (line = [])\<rparr>)
           | _ # r \<Rightarrow> (line, s'\<lparr>buf := r\<rparr>)))"

subsection \<open>Formatted extraction \<open>is >> value\<close>\<close>

text \<open>
  After the sentry, the conversion proper reads from the first non-blank character. It yields
  the value it stores, whether it failed, the characters left, and whether it ran into the end
  of the input.
\<close>

type_synonym 'a conversion = "'a \<times> bool \<times> string \<times> bool"

fun digits_value :: "string \<Rightarrow> nat \<Rightarrow> nat" where
  "digits_value [] acc = acc"
| "digits_value (c # cs) acc = digits_value cs (10 * acc + (of_char c - 48))"

definition INT_MIN :: int where
  "INT_MIN = - (2 ^ 31)"

definition INT_MAX :: int where
  "INT_MAX = 2 ^ 31 - 1"

text \<open>
  \<open>num_get\<close> for \<open>int\<close> in the classic locale, base ten: an optional sign, then the longest run
  of digits. No digit is a failure (zero is stored); a value outside \<open>int\<close> is a failure too
  (the nearest bound is stored).
\<close>

definition get_int :: "string \<Rightarrow> int conversion" where
  "get_int b =
     (let negative = (b \<noteq> [] \<and> hd b = CHR ''-'');
          b1 = (if b \<noteq> [] \<and> (hd b = CHR ''-'' \<or> hd b = CHR ''+'') then tl b else b);
          ds = takeWhile isdigit b1;
          rest = dropWhile isdigit b1;
          n = (if negative then - int (digits_value ds 0) else int (digits_value ds 0))
      in if ds = [] then (0, True, rest, rest = [])
         else if n > INT_MAX then (INT_MAX, True, rest, rest = [])
         else if n < INT_MIN then (INT_MIN, True, rest, rest = [])
         else (n, False, rest, rest = []))"

text \<open>\<open>is >> char\<close> takes the one character after the blanks and looks no further.\<close>

definition get_char :: "string \<Rightarrow> char conversion" where
  "get_char b = (case b of [] \<Rightarrow> (CHR 0x00, True, [], True) | c # r \<Rightarrow> (c, False, r, False))"

text \<open>\<open>is >> std::string\<close> takes the characters up to the next blank.\<close>

definition get_token :: "string \<Rightarrow> string conversion" where
  "get_token b =
     (takeWhile (\<lambda>c. \<not> isspace c) b, False, dropWhile (\<lambda>c. \<not> isspace c) b,
      dropWhile (\<lambda>c. \<not> isspace c) b = [])"

text \<open>
  What the headers do not fix is a parameter of the model: how a \<open>double\<close> is converted from
  and to text (it depends on the platform's rounding), and the stream operators of a class type
  outside the library.
\<close>

record cxx_lib =
  get_double :: "string \<Rightarrow> fp conversion"
  extract_other :: "istream \<Rightarrow> nat \<Rightarrow> nat \<times> istream"
  put_double :: "fp \<Rightarrow> string"
  put_other :: "nat \<Rightarrow> string"

definition formatted :: "('a \<Rightarrow> cpp_value) \<Rightarrow> (string \<Rightarrow> 'a conversion) \<Rightarrow> istream \<Rightarrow> cpp_value
    \<Rightarrow> cpp_value \<times> istream" where
  "formatted mk conv s v =
     (case sentry False s of
        (False, s') \<Rightarrow> (v, s')
      | (True, s') \<Rightarrow>
          (case conv (buf s') of
             (x, failed, rest, eof) \<Rightarrow> (mk x, s'\<lparr>buf := rest, eofbit := eof, failbit := failed\<rparr>)))"

fun extract_value :: "cxx_lib \<Rightarrow> cpp_type \<Rightarrow> istream \<Rightarrow> cpp_value \<Rightarrow> cpp_value \<times> istream" where
  "extract_value L T_int s v = formatted V_int get_int s v"
| "extract_value L T_char s v = formatted V_char get_char s v"
| "extract_value L T_double s v = formatted V_double (get_double L) s v"
| "extract_value L T_string s v = formatted V_string get_token s v"
| "extract_value L T_other s v =
     (case extract_other L s (the_other v) of (x, s') \<Rightarrow> (V_other x, s'))"

subsection \<open>Formatted insertion \<open>os << value\<close>\<close>

definition digit_char :: "nat \<Rightarrow> char" where
  "digit_char d = ''0123456789'' ! d"

fun show_nat :: "nat \<Rightarrow> string" where
  "show_nat n = (if n < 10 then [digit_char n] else show_nat (n div 10) @ [digit_char (n mod 10)])"

declare show_nat.simps [simp del]

definition show_int :: "int \<Rightarrow> string" where
  "show_int i = (if i < 0 then CHR ''-'' # show_nat (nat (- i)) else show_nat (nat i))"

fun put :: "cxx_lib \<Rightarrow> cpp_value \<Rightarrow> string" where
  "put L (V_int i) = show_int i"
| "put L (V_char c) = [c]"
| "put L (V_double d) = put_double L d"
| "put L (V_string s) = s"
| "put L (V_other x) = put_other L x"

definition cout_write :: "string \<Rightarrow> world \<Rightarrow> world" where
  "cout_write str w = w\<lparr>cout := cout w @ str\<rparr>"

definition endl :: "world \<Rightarrow> world" where
  "endl w = w\<lparr>cout := cout w @ [newline]\<rparr>"

section \<open>io.h: \<open>read_value<T>\<close> and \<open>read_number<T>\<close>\<close>

text \<open>
  The state of the retry loop is the three things its body touches: the local \<open>value\<close>, the
  flag \<open>valid\<close>, and the two streams. \<open>read_value_body\<close> is one pass through the body of
  \<open>while (!valid)\<close>; the \<open>continue\<close> after a failed extraction leaves \<open>valid\<close> false.
\<close>

type_synonym loop_state = "cpp_value \<times> bool \<times> world"

definition read_value_body :: "cxx_lib \<Rightarrow> cpp_type \<Rightarrow> string \<Rightarrow> (cpp_value \<Rightarrow> bool) \<Rightarrow> string
    \<Rightarrow> loop_state \<Rightarrow> loop_state" where
  "read_value_body L T prompt validator error_msg st =
     (case st of (value0, valid, w0) \<Rightarrow>
        let w1 = cout_write prompt w0 in
        if T = T_string then
          (case getline (cin w1) (the_string value0) of (line, s) \<Rightarrow>
             let val = V_string line; w2 = w1\<lparr>cin := s\<rparr> in
             if InputValidator_is_valid T val \<and> validator val then (val, True, w2)
             else (val, valid, endl (cout_write error_msg w2)))
        else
          (case extract_value L T (cin w1) value0 of (val, s) \<Rightarrow>
             let s1 = ignore_line s in
             if fail s1 then
               (let s2 = ignore_line (clear s1);
                    w2 = w1\<lparr>cin := s2\<rparr>
                in (val, valid,
                    endl (cout_write (''Error: Invalid '' @ InputValidator_type_name T
                                       @ '' format. '' @ error_msg) w2)))
             else
               (let w2 = w1\<lparr>cin := s1\<rparr> in
                if InputValidator_is_valid T val \<and> validator val then (val, True, w2)
                else (val, valid, endl (cout_write error_msg w2)))))"

text \<open>
  The loop has no bound on its iterations: on an input that never supplies an acceptable value
  it does not return, which is the result \<open>None\<close>.
\<close>

partial_function (option) read_value_loop :: "cxx_lib \<Rightarrow> cpp_type \<Rightarrow> string
    \<Rightarrow> (cpp_value \<Rightarrow> bool) \<Rightarrow> string \<Rightarrow> loop_state \<Rightarrow> (cpp_value \<times> world) option" where
  "read_value_loop L T prompt validator error_msg st =
     (case st of (val, valid, w) \<Rightarrow>
        if \<not> valid
        then read_value_loop L T prompt validator error_msg
               (read_value_body L T prompt validator error_msg st)
        else Some (val, w))"

declare read_value_loop.simps [code]

text \<open>
  \<open>T value;\<close> default-constructs a class type and leaves a scalar indeterminate; the loop
  writes the scalar before it reads it, and the model starts it at zero.
\<close>

definition read_value :: "cxx_lib \<Rightarrow> cpp_type \<Rightarrow> string \<Rightarrow> (cpp_value \<Rightarrow> bool) \<Rightarrow> string
    \<Rightarrow> world \<Rightarrow> (cpp_value \<times> world) option" where
  "read_value L T prompt validator error_msg w =
     read_value_loop L T prompt validator error_msg (value_init T, False, w)"

text \<open>The default arguments of \<open>read_value\<close>.\<close>

definition default_validator :: "cpp_value \<Rightarrow> bool" where
  "default_validator v = True"

definition default_error_msg :: string where
  "default_error_msg = ''Invalid input. Please try again.''"

subsection \<open>Comparison and limits of the arithmetic types\<close>

definition char_to_int :: "char \<Rightarrow> int" where
  "char_to_int c = (if (of_char c :: nat) < 128 then int (of_char c) else int (of_char c) - 256)"

fun fp_le :: "fp \<Rightarrow> fp \<Rightarrow> bool" where
  "fp_le FP_nan _ = False"
| "fp_le _ FP_nan = False"
| "fp_le FP_neg_inf _ = True"
| "fp_le _ FP_pos_inf = True"
| "fp_le (FP_finite x) (FP_finite y) = (x \<le> y)"
| "fp_le _ _ = False"

fun value_le :: "cpp_value \<Rightarrow> cpp_value \<Rightarrow> bool" where
  "value_le (V_int a) (V_int b) = (a \<le> b)"
| "value_le (V_char a) (V_char b) = (char_to_int a \<le> char_to_int b)"
| "value_le (V_double a) (V_double b) = fp_le a b"
| "value_le _ _ = False"

definition DBL_MAX :: rat where
  "DBL_MAX = (2 ^ 53 - 1) * 2 ^ 971"

fun numeric_limits_lowest :: "cpp_type \<Rightarrow> cpp_value" where
  "numeric_limits_lowest T_int = V_int INT_MIN"
| "numeric_limits_lowest T_char = V_char (CHR 0x80)"
| "numeric_limits_lowest T_double = V_double (FP_finite (- DBL_MAX))"
| "numeric_limits_lowest T = value_init T"

fun numeric_limits_max :: "cpp_type \<Rightarrow> cpp_value" where
  "numeric_limits_max T_int = V_int INT_MAX"
| "numeric_limits_max T_char = V_char (CHR 0x7F)"
| "numeric_limits_max T_double = V_double (FP_finite DBL_MAX)"
| "numeric_limits_max T = value_init T"

text \<open>
  \<open>read_number<T>\<close> compiles for arithmetic \<open>T\<close> only (\<open>static_assert\<close>). It builds the range
  validator and the message from the two bounds and calls \<open>read_value<T>\<close>.
\<close>

definition range_validator :: "cpp_value \<Rightarrow> cpp_value \<Rightarrow> cpp_value \<Rightarrow> bool" where
  "range_validator min_value max_value num = (value_le min_value num \<and> value_le num max_value)"

definition range_error_msg :: "cxx_lib \<Rightarrow> cpp_value \<Rightarrow> cpp_value \<Rightarrow> string" where
  "range_error_msg L min_value max_value =
     ''Please enter a number between '' @ put L min_value @ '' and '' @ put L max_value @ ''.''"

definition read_number :: "cxx_lib \<Rightarrow> cpp_type \<Rightarrow> string \<Rightarrow> cpp_value \<Rightarrow> cpp_value \<Rightarrow> world
    \<Rightarrow> (cpp_value \<times> world) option" where
  "read_number L T prompt min_value max_value w =
     read_value L T prompt (range_validator min_value max_value)
       (range_error_msg L min_value max_value) w"

definition read_number_default :: "cxx_lib \<Rightarrow> cpp_type \<Rightarrow> string \<Rightarrow> world
    \<Rightarrow> (cpp_value \<times> world) option" where
  "read_number_default L T prompt w =
     read_number L T prompt (numeric_limits_lowest T) (numeric_limits_max T) w"

section \<open>data\_container.h: populating and printing\<close>

text \<open>
  A call either throws, or returns with the new state; populating can also fail to return.
\<close>

definition read_and_set_field :: "cxx_lib \<Rightarrow> cpp_type list \<Rightarrow> nat \<Rightarrow> DataContainer \<times> world
    \<Rightarrow> (cpp_exception + DataContainer \<times> world) option" where
  "read_and_set_field L Fields Index cw =
     (case cw of (container, w) \<Rightarrow>
        case get_field_name Index container of
          Inl e \<Rightarrow> Some (Inl e)
        | Inr name \<Rightarrow>
            (case read_value L (Fields ! Index) (''Enter '' @ name @ '': '')
                    default_validator default_error_msg w of
               None \<Rightarrow> None
             | Some (val, w') \<Rightarrow> Some (Inr (set_field Index val container, w'))))"

text \<open>The fold over the comma operator runs the calls left to right, one per index.\<close>

fun read_data_container_helper :: "cxx_lib \<Rightarrow> cpp_type list \<Rightarrow> nat list \<Rightarrow> DataContainer \<times> world
    \<Rightarrow> (cpp_exception + DataContainer \<times> world) option" where
  "read_data_container_helper L Fields [] cw = Some (Inr cw)"
| "read_data_container_helper L Fields (Index # Indices) cw =
     (case read_and_set_field L Fields Index cw of
        None \<Rightarrow> None
      | Some (Inl e) \<Rightarrow> Some (Inl e)
      | Some (Inr cw') \<Rightarrow> read_data_container_helper L Fields Indices cw')"

definition make_index_sequence :: "nat \<Rightarrow> nat list" where
  "make_index_sequence n = [0..<n]"

definition read_data_container :: "cxx_lib \<Rightarrow> cpp_type list \<Rightarrow> string list \<Rightarrow> world
    \<Rightarrow> (cpp_exception + DataContainer \<times> world) option" where
  "read_data_container L Fields names w =
     (case DataContainer_ctor Fields names of
        Inl e \<Rightarrow> Some (Inl e)
      | Inr container \<Rightarrow>
          read_data_container_helper L Fields (make_index_sequence (length Fields)) (container, w))"

definition print_field :: "cxx_lib \<Rightarrow> nat \<Rightarrow> DataContainer \<Rightarrow> world \<Rightarrow> cpp_exception + world" where
  "print_field L Index container w =
     (case get_field_name Index container of
        Inl e \<Rightarrow> Inl e
      | Inr name \<Rightarrow>
          Inr (endl (cout_write (put L (get_field Index container))
                      (cout_write '': '' (cout_write name w)))))"

fun print_data_container_helper :: "cxx_lib \<Rightarrow> nat list \<Rightarrow> DataContainer \<Rightarrow> world
    \<Rightarrow> cpp_exception + world" where
  "print_data_container_helper L [] container w = Inr w"
| "print_data_container_helper L (Index # Indices) container w =
     (case print_field L Index container w of
        Inl e \<Rightarrow> Inl e
      | Inr w' \<Rightarrow> print_data_container_helper L Indices container w')"

definition print_data_container :: "cxx_lib \<Rightarrow> cpp_type list \<Rightarrow> DataContainer \<Rightarrow> string \<Rightarrow> world
    \<Rightarrow> cpp_exception + world" where
  "print_data_container L Fields container header w =
     print_data_container_helper L (make_index_sequence (length Fields)) container
       (if header \<noteq> [] then endl (cout_write header w) else w)"

section \<open>Runs of the program\<close>

text \<open>
  The state of the retry loop of \<open>read_value\<close> after \<open>k\<close> passes through its body, counted from
  the call: pass \<open>k\<close> accepted the input when the flag of that state is set.
\<close>

definition attempts :: "cxx_lib \<Rightarrow> cpp_type \<Rightarrow> string \<Rightarrow> (cpp_value \<Rightarrow> bool) \<Rightarrow> string \<Rightarrow> nat \<Rightarrow> world
    \<Rightarrow> loop_state" where
  "attempts L T prompt validator error_msg k w =
     ((read_value_body L T prompt validator error_msg) ^^ k) (value_init T, False, w)"

definition accepted :: "loop_state \<Rightarrow> bool" where
  "accepted st = fst (snd st)"

text \<open>
  The specification's description of \<open>read_number\<close>: \<open>read_value\<close> with the side predicate
  \<open>v -> min <= v <= max\<close> and some message.
\<close>

definition read_number_spec :: "cxx_lib \<Rightarrow> cpp_type \<Rightarrow> string \<Rightarrow> cpp_value \<Rightarrow> cpp_value \<Rightarrow> string
    \<Rightarrow> world \<Rightarrow> (cpp_value \<times> world) option" where
  "read_number_spec L T prompt min_value max_value msg w =
     read_value L T prompt (\<lambda>v. value_le min_value v \<and> value_le v max_value) msg w"

text \<open>
  A program start: the given text waits on standard input, nothing has been written. And a
  library for programs over \<open>int\<close>, \<open>char\<close> and \<open>std::string\<close>, which never run the
  conversions of the other types: they are fixed as failing, and as printing nothing.
\<close>

definition stdin :: "string \<Rightarrow> world" where
  "stdin b = \<lparr>cin = \<lparr>buf = b, eofbit = False, failbit = False\<rparr>, cout = []\<rparr>"

definition plain_lib :: cxx_lib where
  "plain_lib = \<lparr>get_double = (\<lambda>b. (FP_finite 0, True, b, False)),
     extract_other = (\<lambda>s x. (x, s\<lparr>failbit := True\<rparr>)),
     put_double = (\<lambda>d. []), put_other = (\<lambda>x. [])\<rparr>"

text \<open>The line that \<open>print_field<i>\<close> writes for field \<open>i\<close>.\<close>

definition field_line :: "cxx_lib \<Rightarrow> DataContainer \<Rightarrow> nat \<Rightarrow> string" where
  "field_line L c i = field_names c ! i @ '': '' @ put L (get_field i c) @ [newline]"

text \<open>
  What the line discipline of \<open>read_value\<close> needs from a conversion: started on a non-blank
  character it takes a piece of the current line (it never reads past a newline), and it
  reports the end of the input only when nothing is left.
\<close>

definition stays_on_line :: "(string \<Rightarrow> 'a conversion) \<Rightarrow> bool" where
  "stays_on_line conv =
     (\<forall>b. b \<noteq> [] \<and> \<not> isspace (hd b) \<longrightarrow>
        (case conv b of (x, failed, rest, eof) \<Rightarrow>
           (\<exists>pre. b = pre @ rest \<and> newline \<notin> set pre) \<and> (eof \<longrightarrow> rest = [])))"

text \<open>
  A loop state at the end of the input: nothing is left to read and nothing has been accepted
  (and, reading text, the local string is still empty).
\<close>

definition at_eof :: "cpp_type \<Rightarrow> loop_state \<Rightarrow> bool" where
  "at_eof T st = (T \<noteq> T_other \<and> \<not> fst (snd st) \<and> buf (cin (snd (snd st))) = []
      \<and> (T = T_string \<longrightarrow> fst st = V_string []))"

section \<open>Properties of the container\<close>

lemma set_field_names [simp]: "field_names (set_field i v c) = field_names c"
  by (simp add: set_field_def)

lemma set_field_length [simp]: "length (data (set_field i v c)) = length (data c)"
  by (simp add: set_field_def)

lemma set_fields_names [simp]: "field_names (set_fields ops c) = field_names c"
  unfolding set_fields_def by (induction ops arbitrary: c) (auto)

lemma ctor_Inr_iff:
  "DataContainer_ctor Fields names = Inr c \<longleftrightarrow>
     length names = length Fields \<and> c = \<lparr>data = map value_init Fields, field_names = names\<rparr>"
  by (auto simp: DataContainer_ctor_def)

text \<open>
  Claim C5. Constructing a \<open>DataContainer<Fields...>\<close> from a name list whose length differs
  from \<open>sizeof...(Fields)\<close> fails with \<open>std::invalid_argument\<close>, for every arity and every
  mismatched length; with a matching length it succeeds and throws nothing.
\<close>

theorem ctor_arity_mismatch:
  "(length names \<noteq> length Fields \<longrightarrow>
      DataContainer_ctor Fields names =
        Inl (invalid_argument ''Number of field names must match number of fields''))
   \<and> (length names = length Fields \<longrightarrow>
      (\<exists>c. DataContainer_ctor Fields names = Inr c \<and> field_names c = names
            \<and> length (data c) = length Fields))"
  by (simp add: DataContainer_ctor_def)

theorem ctor_arity_mismatch_witness:
  "length [''Age''] \<noteq> length [T_int, T_string]
   \<and> DataContainer_ctor [T_int, T_string] [''Age''] =
        Inl (invalid_argument ''Number of field names must match number of fields'')
   \<and> length [''Age'', ''Name''] = length [T_int, T_string]
   \<and> (\<exists>c. DataContainer_ctor [T_int, T_string] [''Age'', ''Name''] = Inr c
          \<and> field_names c = [''Age'', ''Name''] \<and> length (data c) = length [T_int, T_string])"
  using ctor_arity_mismatch [of "[''Age'']" "[T_int, T_string]"]
        ctor_arity_mismatch [of "[''Age'', ''Name'']" "[T_int, T_string]"]
  by simp

text \<open>
  Claim C6. On a constructed container, \<open>get_field_name(i)\<close> throws \<open>std::out_of_range\<close>
  exactly when \<open>i >= size()\<close>; for \<open>i < size()\<close> it returns the name given to the constructor
  for position \<open>i\<close>, whatever \<open>set_field\<close> calls have been made on the container since.
\<close>

theorem get_field_name_range:
  assumes "DataContainer_ctor Fields names = Inr c"
  shows "get_field_name i (set_fields ops c) =
           (if i \<ge> size_fields Fields (set_fields ops c)
            then Inl (out_of_range ''Field index out of range'')
            else Inr (names ! i))"
  using assms by (auto simp: ctor_Inr_iff get_field_name_def size_fields_def)

theorem get_field_name_range_witness:
  "DataContainer_ctor [T_int, T_string] [''Age'', ''Name'']
     = Inr \<lparr>data = [V_int 0, V_string []], field_names = [''Age'', ''Name'']\<rparr>
   \<and> get_field_name 1 (set_fields [(0, V_int 30), (1, V_string ''Alice'')]
        \<lparr>data = [V_int 0, V_string []], field_names = [''Age'', ''Name'']\<rparr>) = Inr ''Name''
   \<and> get_field_name 2 (set_fields [(0, V_int 30), (1, V_string ''Alice'')]
        \<lparr>data = [V_int 0, V_string []], field_names = [''Age'', ''Name'']\<rparr>)
       = Inl (out_of_range ''Field index out of range'')"
proof -
  have c: "DataContainer_ctor [T_int, T_string] [''Age'', ''Name'']
     = Inr \<lparr>data = [V_int 0, V_string []], field_names = [''Age'', ''Name'']\<rparr>"
    by (simp add: DataContainer_ctor_def)
  show ?thesis
    using c get_field_name_range [OF c, of 1 "[(0, V_int 30), (1, V_string ''Alice'')]"]
            get_field_name_range [OF c, of 2 "[(0, V_int 30), (1, V_string ''Alice'')]"]
    by (simp add: size_fields_def)
qed

text \<open>
  Claim C7. \<open>get_field<i>()\<close> has no failure branch. For every field position \<open>i\<close>, right
  after construction it returns the value-initialised value of the field's type, and after
  \<open>set_field<i>(v)\<close> it returns \<open>v\<close>, for every \<open>v\<close>; the boundary values of the spec (zero,
  a negative number, the empty string, the least and greatest \<open>int\<close>) are instances.
\<close>

theorem get_field_roundtrip:
  assumes "DataContainer_ctor Fields names = Inr c" and "i < length Fields"
  shows "get_field i c = value_init (Fields ! i)
         \<and> get_field i (set_field i v (set_fields ops c)) = v"
proof -
  have len: "length (data (set_fields ops c)) = length Fields"
    unfolding set_fields_def using assms(1)
    by (induction ops arbitrary: c rule: rev_induct) (auto simp: ctor_Inr_iff)
  have "get_field i c = value_init (Fields ! i)"
    using assms by (auto simp: ctor_Inr_iff get_field_def)
  moreover have "get_field i (set_field i v (set_fields ops c)) = v"
    using len assms(2) by (simp add: get_field_def set_field_def)
  ultimately show ?thesis
    by simp
qed

theorem get_field_roundtrip_witness:
  "DataContainer_ctor [T_int, T_string] [''Age'', ''Name'']
     = Inr \<lparr>data = [V_int 0, V_string []], field_names = [''Age'', ''Name'']\<rparr>
   \<and> (0::nat) < length [T_int, T_string] \<and> (1::nat) < length [T_int, T_string]
   \<and> get_field 0 \<lparr>data = [V_int 0, V_string []], field_names = [''Age'', ''Name'']\<rparr> = V_int 0
   \<and> get_field 0 (set_field 0 (V_int (- (2 ^ 31))) (set_fields []
        \<lparr>data = [V_int 0, V_string []], field_names = [''Age'', ''Name'']\<rparr>)) = V_int (- (2 ^ 31))
   \<and> get_field 1 \<lparr>data = [V_int 0, V_string []], field_names = [''Age'', ''Name'']\<rparr> = V_string []
   \<and> get_field 1 (set_field 1 (V_string []) (set_fields [(1, V_string ''Alice'')]
        \<lparr>data = [V_int 0, V_string []], field_names = [''Age'', ''Name'']\<rparr>)) = V_string []"
proof -
  have c: "DataContainer_ctor [T_int, T_string] [''Age'', ''Name'']
     = Inr \<lparr>data = [V_int 0, V_string []], field_names = [''Age'', ''Name'']\<rparr>"
    by (simp add: DataContainer_ctor_def)
  have i: "(0::nat) < length [T_int, T_string]" and j: "(1::nat) < length [T_int, T_string]"
    by simp_all
  show ?thesis
    using c i j get_field_roundtrip [OF c i, of "V_int (- (2 ^ 31))" "[]"]
      get_field_roundtrip [OF c j, of "V_string []" "[(1, V_string ''Alice'')]"]
    by simp
qed

section \<open>Properties of the reader\<close>

lemmas run_simps = read_value_def read_value_loop.simps read_value_body_def getline_def
  ignore_line_def sentry_def good_def fail_def clear_def formatted_def get_int_def get_char_def
  isdigit_def isspace_def newline_def cout_write_def endl_def stdin_def
  InputValidator_is_valid_def InputValidator_type_name_def INT_MAX_def INT_MIN_def
  default_validator_def default_error_msg_def Let_def

text \<open>A pass through the body sets the flag only on a value that passed both checks.\<close>

lemma body_accepts_valid:
  "\<not> fst (snd st) \<Longrightarrow> fst (snd (read_value_body L T prompt P err st)) \<Longrightarrow>
     InputValidator_is_valid T (fst (read_value_body L T prompt P err st))
     \<and> P (fst (read_value_body L T prompt P err st))"
  by (cases st) (auto simp: read_value_body_def Let_def split: prod.splits if_splits)

lemma loop_continue:
  "\<not> fst (snd st) \<Longrightarrow>
     read_value_loop L T prompt P err st =
     read_value_loop L T prompt P err (read_value_body L T prompt P err st)"
  by (subst read_value_loop.simps) (auto split: prod.splits)

lemma loop_stop:
  "fst (snd st) \<Longrightarrow> read_value_loop L T prompt P err st = Some (fst st, snd (snd st))"
  by (subst read_value_loop.simps) (auto split: prod.splits)

lemma loop_sound:
  assumes "read_value_loop L T prompt P err st = Some r"
  shows "(fst (snd st) \<longrightarrow> InputValidator_is_valid T (fst st) \<and> P (fst st)) \<longrightarrow>
     InputValidator_is_valid T (fst r) \<and> P (fst r)"
proof (rule read_value_loop.raw_induct[where P = "\<lambda>L T prompt P err st r.
     (fst (snd st) \<longrightarrow> InputValidator_is_valid T (fst st) \<and> P (fst st)) \<longrightarrow>
     InputValidator_is_valid T (fst r) \<and> P (fst r)", OF _ assms])
  fix loop L T prompt P err st r
  assume IH: "\<And>L T prompt P err st r. loop L T prompt P err st = Some r \<Longrightarrow>
     (fst (snd st) \<longrightarrow> InputValidator_is_valid T (fst st) \<and> P (fst st)) \<longrightarrow>
     InputValidator_is_valid T (fst r) \<and> P (fst r)"
  and step: "(case st of (val, valid, w) \<Rightarrow>
        if \<not> valid then loop L T prompt P err (read_value_body L T prompt P err st)
        else Some (val, w)) = Some r"
  obtain val valid w where st: "st = (val, valid, w)" by (cases st)
  show "(fst (snd st) \<longrightarrow> InputValidator_is_valid T (fst st) \<and> P (fst st)) \<longrightarrow>
     InputValidator_is_valid T (fst r) \<and> P (fst r)"
  proof (cases valid)
    case True
    with step st show ?thesis by auto
  next
    case False
    from step False st
    have "loop L T prompt P err (read_value_body L T prompt P err st) = Some r"
      by simp
    from IH[OF this] body_accepts_valid[of st L T prompt P err] False st show ?thesis by auto
  qed
qed

lemma loop_first_accept:
  "(\<forall>j<k. \<not> fst (snd (((read_value_body L T prompt P err) ^^ j) st))) \<Longrightarrow>
   fst (snd (((read_value_body L T prompt P err) ^^ k) st)) \<Longrightarrow>
   read_value_loop L T prompt P err st =
     Some (fst (((read_value_body L T prompt P err) ^^ k) st),
           snd (snd (((read_value_body L T prompt P err) ^^ k) st)))"
proof (induction k arbitrary: st)
  case 0
  then show ?case by (simp add: loop_stop)
next
  case (Suc k)
  from Suc.prems(1) have nv: "\<not> fst (snd st)"
    by (metis funpow_0 zero_less_Suc)
  have "\<forall>j<k. \<not> fst (snd (((read_value_body L T prompt P err) ^^ j)
                  (read_value_body L T prompt P err st)))"
  proof (intro allI impI)
    fix j assume "j < k"
    then have "Suc j < Suc k" by simp
    with Suc.prems(1) have "\<not> fst (snd (((read_value_body L T prompt P err) ^^ Suc j) st))"
      by blast
    then show "\<not> fst (snd (((read_value_body L T prompt P err) ^^ j)
                  (read_value_body L T prompt P err st)))"
      by (simp add: funpow_swap1)
  qed
  moreover from Suc.prems(2)
  have "fst (snd (((read_value_body L T prompt P err) ^^ k) (read_value_body L T prompt P err st)))"
    by (simp add: funpow_swap1)
  ultimately have "read_value_loop L T prompt P err (read_value_body L T prompt P err st) =
     Some (fst (((read_value_body L T prompt P err) ^^ k) (read_value_body L T prompt P err st)),
           snd (snd (((read_value_body L T prompt P err) ^^ k)
                  (read_value_body L T prompt P err st))))"
    by (rule Suc.IH)
  with loop_continue[OF nv] show ?case
    by (simp add: funpow_swap1)
qed

text \<open>
  Claim C1. For every type \<open>T\<close> and every caller-supplied predicate, whatever \<open>read_value<T>\<close>
  returns passes both the type's validity rule and the predicate. And it does return once
  the input supplies an acceptable value: when the state after \<open>k\<close> passes of the retry loop
  is the first accepted one, whatever was rejected in the passes before, the call returns the
  value of that pass.
\<close>

theorem read_value_returns_only_valid:
  "(read_value L T prompt validator error_msg w = Some (v, w') \<longrightarrow>
      InputValidator_is_valid T v \<and> validator v)
   \<and> ((\<forall>j<k. \<not> accepted (attempts L T prompt validator error_msg j w))
        \<and> accepted (attempts L T prompt validator error_msg k w) \<longrightarrow>
      read_value L T prompt validator error_msg w =
        Some (fst (attempts L T prompt validator error_msg k w),
              snd (snd (attempts L T prompt validator error_msg k w)))
      \<and> InputValidator_is_valid T (fst (attempts L T prompt validator error_msg k w))
      \<and> validator (fst (attempts L T prompt validator error_msg k w)))"
proof -
  have sound: "InputValidator_is_valid T x \<and> validator x"
    if "read_value L T prompt validator error_msg w = Some (x, u)" for x u
    using that loop_sound[of L T prompt validator error_msg "(value_init T, False, w)" "(x, u)"]
    by (simp add: read_value_def)
  have live: "read_value L T prompt validator error_msg w =
        Some (fst (attempts L T prompt validator error_msg k w),
              snd (snd (attempts L T prompt validator error_msg k w)))"
    if "(\<forall>j<k. \<not> accepted (attempts L T prompt validator error_msg j w))
        \<and> accepted (attempts L T prompt validator error_msg k w)"
    using that unfolding read_value_def attempts_def accepted_def
    using loop_first_accept[of k L T prompt validator error_msg "(value_init T, False, w)"]
    by blast
  show ?thesis
    using sound live by blast
qed

text \<open>
  The witness: a name is asked for with the predicate "not x"; the empty line fails the
  validity rule of text, the line x fails the predicate, the third line is returned.
\<close>

theorem read_value_returns_only_valid_witness:
  "read_value plain_lib T_string ''Name: '' (\<lambda>v. v \<noteq> V_string ''x'') ''Try again.''
      (stdin ([newline] @ ''x'' @ [newline] @ ''Alice'' @ [newline]))
     = Some (V_string ''Alice'',
         \<lparr>cin = \<lparr>buf = [], eofbit = False, failbit = False\<rparr>,
          cout = ''Name: Try again.'' @ [newline] @ ''Name: Try again.'' @ [newline] @ ''Name: ''\<rparr>)
   \<and> InputValidator_is_valid T_string (V_string ''Alice'') \<and> V_string ''Alice'' \<noteq> V_string ''x''
   \<and> \<not> accepted (attempts plain_lib T_string ''Name: '' (\<lambda>v. v \<noteq> V_string ''x'') ''Try again.''
          0 (stdin ([newline] @ ''x'' @ [newline] @ ''Alice'' @ [newline])))
   \<and> \<not> accepted (attempts plain_lib T_string ''Name: '' (\<lambda>v. v \<noteq> V_string ''x'') ''Try again.''
          (Suc 0) (stdin ([newline] @ ''x'' @ [newline] @ ''Alice'' @ [newline])))
   \<and> \<not> accepted (attempts plain_lib T_string ''Name: '' (\<lambda>v. v \<noteq> V_string ''x'') ''Try again.''
          (Suc (Suc 0)) (stdin ([newline] @ ''x'' @ [newline] @ ''Alice'' @ [newline])))
   \<and> accepted (attempts plain_lib T_string ''Name: '' (\<lambda>v. v \<noteq> V_string ''x'') ''Try again.''
          (Suc (Suc (Suc 0))) (stdin ([newline] @ ''x'' @ [newline] @ ''Alice'' @ [newline])))"
proof -
  have run: "read_value plain_lib T_string ''Name: '' (\<lambda>v. v \<noteq> V_string ''x'') ''Try again.''
      (stdin ([newline] @ ''x'' @ [newline] @ ''Alice'' @ [newline]))
     = Some (V_string ''Alice'',
         \<lparr>cin = \<lparr>buf = [], eofbit = False, failbit = False\<rparr>,
          cout = ''Name: Try again.'' @ [newline] @ ''Name: Try again.'' @ [newline] @ ''Name: ''\<rparr>)"
    by (simp add: run_simps)
  have acc: "(\<forall>j<Suc (Suc (Suc 0)). \<not> accepted (attempts plain_lib T_string ''Name: ''
          (\<lambda>v. v \<noteq> V_string ''x'') ''Try again.'' j
          (stdin ([newline] @ ''x'' @ [newline] @ ''Alice'' @ [newline]))))
   \<and> accepted (attempts plain_lib T_string ''Name: '' (\<lambda>v. v \<noteq> V_string ''x'') ''Try again.''
          (Suc (Suc (Suc 0))) (stdin ([newline] @ ''x'' @ [newline] @ ''Alice'' @ [newline])))"
    by (simp add: All_less_Suc accepted_def attempts_def run_simps)
  show ?thesis
    using run acc
      read_value_returns_only_valid [of plain_lib T_string "''Name: ''"
        "\<lambda>v. v \<noteq> V_string ''x''" "''Try again.''"
        "stdin ([newline] @ ''x'' @ [newline] @ ''Alice'' @ [newline])"
        "V_string ''Alice''"
        "\<lparr>cin = \<lparr>buf = [], eofbit = False, failbit = False\<rparr>,
          cout = ''Name: Try again.'' @ [newline] @ ''Name: Try again.'' @ [newline] @ ''Name: ''\<rparr>"
        "Suc (Suc (Suc 0))"]
    by (simp add: All_less_Suc)
qed

text \<open>
  Claim C2. The validity rule per type: an integral type accepts every value, under the name
  "integer" (so plain \<open>read_value<int>\<close> takes -5, with no positivity or range check); a
  floating-point type accepts exactly the values that are neither NaN nor infinite, under the
  name "number"; \<open>std::string\<close> accepts exactly the non-empty strings, under the name "text";
  any other type accepts every value, under the name "value".
\<close>

theorem InputValidator_rule:
  "(is_integral T \<longrightarrow> InputValidator_is_valid T v \<and> InputValidator_type_name T = ''integer'')
   \<and> read_value L T_int prompt default_validator default_error_msg (stdin (''-5'' @ [newline]))
       = Some (V_int (- 5), \<lparr>cin = \<lparr>buf = [], eofbit = False, failbit = False\<rparr>, cout = prompt\<rparr>)
   \<and> (is_floating_point T \<longrightarrow>
        (InputValidator_is_valid T (V_double d) \<longleftrightarrow> \<not> isnan d \<and> \<not> isinf d)
        \<and> InputValidator_type_name T = ''number'')
   \<and> (InputValidator_is_valid T_string (V_string s) \<longleftrightarrow> s \<noteq> [])
   \<and> InputValidator_type_name T_string = ''text''
   \<and> (\<not> is_integral T \<and> \<not> is_floating_point T \<and> T \<noteq> T_string \<longrightarrow>
        InputValidator_is_valid T v \<and> InputValidator_type_name T = ''value'')"
proof -
  have "read_value L T_int prompt default_validator default_error_msg (stdin (''-5'' @ [newline]))
       = Some (V_int (- 5), \<lparr>cin = \<lparr>buf = [], eofbit = False, failbit = False\<rparr>, cout = prompt\<rparr>)"
    by (simp add: run_simps)
  moreover have "is_floating_point T \<Longrightarrow> \<not> is_integral T"
    by (cases T) simp_all
  ultimately show ?thesis
    by (auto simp: InputValidator_is_valid_def InputValidator_type_name_def)
qed

theorem InputValidator_rule_witness:
  "is_integral T_char \<and> InputValidator_is_valid T_char (V_char CHR ''a'')
   \<and> InputValidator_type_name T_char = ''integer''
   \<and> is_floating_point T_double
   \<and> \<not> InputValidator_is_valid T_double (V_double FP_nan)
   \<and> \<not> InputValidator_is_valid T_double (V_double FP_neg_inf)
   \<and> InputValidator_is_valid T_double (V_double (FP_finite (- 5 / 2)))
   \<and> InputValidator_type_name T_double = ''number''
   \<and> \<not> InputValidator_is_valid T_string (V_string [])
   \<and> InputValidator_is_valid T_string (V_string ''Alice'')
   \<and> \<not> is_integral T_other \<and> \<not> is_floating_point T_other \<and> T_other \<noteq> T_string
   \<and> InputValidator_is_valid T_other (V_other 7) \<and> InputValidator_type_name T_other = ''value''"
  using InputValidator_rule [of T_char "V_char CHR ''a''" plain_lib "[]" FP_nan "[]"]
    InputValidator_rule [of T_double "V_double FP_nan" plain_lib "[]" FP_nan "''Alice''"]
    InputValidator_rule [of T_double "V_double FP_nan" plain_lib "[]" FP_neg_inf "[]"]
    InputValidator_rule [of T_double "V_double FP_nan" plain_lib "[]" "FP_finite (- 5 / 2)" "[]"]
    InputValidator_rule [of T_other "V_other 7" plain_lib "[]" FP_nan "[]"]
  by simp

text \<open>
  Claim C3. \<open>read_number<T>(prompt, min, max)\<close> is \<open>read_value<T>\<close> with the side predicate
  \<open>v -> min <= v <= max\<close> and an error message that embeds the two bounds; with the default
  arguments the bounds are the lowest and the greatest value of \<open>T\<close>, which for \<open>int\<close> lets
  every \<open>int\<close> through. \<open>read_number<int>\<close> with the bounds 1 and 10, fed the lines 15, abc
  and 7, rejects 15 with the range message, rejects abc with the message that names the type,
  and returns 7.
\<close>

theorem read_number_is_read_value:
  "read_number L T prompt min_value max_value w =
     read_number_spec L T prompt min_value max_value (range_error_msg L min_value max_value) w
   \<and> (\<exists>pre mid post. range_error_msg L min_value max_value =
         pre @ put L min_value @ mid @ put L max_value @ post)
   \<and> read_number_default L T prompt w =
       read_number L T prompt (numeric_limits_lowest T) (numeric_limits_max T) w
   \<and> numeric_limits_lowest T_int = V_int (- (2 ^ 31))
   \<and> numeric_limits_max T_int = V_int (2 ^ 31 - 1)
   \<and> (has_type T_int v \<longrightarrow>
        range_validator (numeric_limits_lowest T_int) (numeric_limits_max T_int) v)
   \<and> read_number L T_int ''Enter 1-10: '' (V_int 1) (V_int 10)
        (stdin (''15'' @ [newline] @ ''abc'' @ [newline] @ ''7'' @ [newline]))
      = Some (V_int 7, \<lparr>cin = \<lparr>buf = [], eofbit = False, failbit = False\<rparr>,
          cout = ''Enter 1-10: '' @ ''Please enter a number between 1 and 10.'' @ [newline]
            @ ''Enter 1-10: ''
            @ ''Error: Invalid integer format. Please enter a number between 1 and 10.''
            @ [newline]
            @ ''Enter 1-10: ''\<rparr>)"
proof -
  have spec: "read_number L T prompt min_value max_value w =
     read_number_spec L T prompt min_value max_value (range_error_msg L min_value max_value) w"
  proof -
    have "range_validator min_value max_value =
        (\<lambda>v. value_le min_value v \<and> value_le v max_value)"
      by (simp add: fun_eq_iff range_validator_def)
    then show ?thesis
      by (simp add: read_number_def read_number_spec_def)
  qed
  have "range_error_msg L min_value max_value =
     ''Please enter a number between '' @ put L min_value @ '' and '' @ put L max_value @ ''.''"
    by (simp add: range_error_msg_def)
  then have msg: "\<exists>pre mid post. range_error_msg L min_value max_value =
         pre @ put L min_value @ mid @ put L max_value @ post"
    by blast
  have dflt: "read_number_default L T prompt w =
       read_number L T prompt (numeric_limits_lowest T) (numeric_limits_max T) w"
    by (simp add: read_number_default_def)
  have lim: "numeric_limits_lowest T_int = V_int (- (2 ^ 31))
      \<and> numeric_limits_max T_int = V_int (2 ^ 31 - 1)"
    by (simp add: INT_MIN_def INT_MAX_def)
  have all: "has_type T_int v \<longrightarrow>
        range_validator (numeric_limits_lowest T_int) (numeric_limits_max T_int) v"
    by (cases v) (simp_all add: range_validator_def INT_MIN_def INT_MAX_def)
  have run: "read_number L T_int ''Enter 1-10: '' (V_int 1) (V_int 10)
        (stdin (''15'' @ [newline] @ ''abc'' @ [newline] @ ''7'' @ [newline]))
      = Some (V_int 7, \<lparr>cin = \<lparr>buf = [], eofbit = False, failbit = False\<rparr>,
          cout = ''Enter 1-10: '' @ ''Please enter a number between 1 and 10.'' @ [newline]
            @ ''Enter 1-10: ''
            @ ''Error: Invalid integer format. Please enter a number between 1 and 10.''
            @ [newline]
            @ ''Enter 1-10: ''\<rparr>)"
    by (simp add: read_number_def range_validator_def range_error_msg_def show_int_def
        show_nat.simps digit_char_def run_simps)
  from spec msg dflt lim all run show ?thesis
    by blast
qed

theorem read_number_is_read_value_witness:
  "has_type T_int (V_int 7)
   \<and> range_validator (numeric_limits_lowest T_int) (numeric_limits_max T_int) (V_int 7)
   \<and> read_number plain_lib T_int ''Enter 1-10: '' (V_int 1) (V_int 10)
        (stdin (''15'' @ [newline] @ ''abc'' @ [newline] @ ''7'' @ [newline]))
      = Some (V_int 7, \<lparr>cin = \<lparr>buf = [], eofbit = False, failbit = False\<rparr>,
          cout = ''Enter 1-10: '' @ ''Please enter a number between 1 and 10.'' @ [newline]
            @ ''Enter 1-10: ''
            @ ''Error: Invalid integer format. Please enter a number between 1 and 10.''
            @ [newline]
            @ ''Enter 1-10: ''\<rparr>)"
  using read_number_is_read_value [of plain_lib T_int "[]" "V_int 1" "V_int 10" "stdin []" "V_int 7"]
  by simp

section \<open>Properties of populating and printing\<close>

lemma print_helper_output:
  "\<forall>i \<in> set Indices. i < length (field_names c) \<Longrightarrow>
   print_data_container_helper L Indices c w =
     Inr (w\<lparr>cout := cout w @ concat (map (field_line L c) Indices)\<rparr>)"
proof (induction Indices arbitrary: w)
  case Nil
  then show ?case by simp
next
  case (Cons i Indices)
  then have "print_field L i c w = Inr (w\<lparr>cout := cout w @ field_line L c i\<rparr>)"
    by (simp add: print_field_def get_field_name_def field_line_def cout_write_def endl_def)
  with Cons show ?case by simp
qed

lemma read_and_set_field_names:
  "read_and_set_field L Fields i (c, w) = Some (Inr (c', w')) \<Longrightarrow> field_names c' = field_names c"
  by (auto simp: read_and_set_field_def split: sum.splits option.splits)

lemma read_and_set_field_no_throw:
  "i < length (field_names c) \<Longrightarrow> read_and_set_field L Fields i (c, w) \<noteq> Some (Inl e)"
  by (auto simp: read_and_set_field_def get_field_name_def split: sum.splits option.splits)

lemma read_helper_no_throw:
  "\<forall>i \<in> set Indices. i < length (field_names c) \<Longrightarrow>
   read_data_container_helper L Fields Indices (c, w) \<noteq> Some (Inl e)"
proof (induction Indices arbitrary: c w)
  case Nil
  then show ?case by simp
next
  case (Cons i Indices)
  show ?case
  proof (cases "read_and_set_field L Fields i (c, w)")
    case None
    then show ?thesis by simp
  next
    case (Some r)
    show ?thesis
    proof (cases r)
      case (Inl e')
      with Some read_and_set_field_no_throw[of i c L Fields w e'] Cons.prems show ?thesis by simp
    next
      case (Inr cw')
      obtain c' w' where cw': "cw' = (c', w')" by (cases cw')
      with Some Inr have "field_names c' = field_names c"
        using read_and_set_field_names by blast
      with Cons.prems have "\<forall>i \<in> set Indices. i < length (field_names c')" by simp
      from Cons.IH[OF this] Some Inr cw' show ?thesis by simp
    qed
  qed
qed

lemma read_helper_snoc:
  "read_data_container_helper L Fields (xs @ [k]) cw =
     (case read_data_container_helper L Fields xs cw of
        None \<Rightarrow> None
      | Some (Inl e) \<Rightarrow> Some (Inl e)
      | Some (Inr cw') \<Rightarrow>
          (case read_and_set_field L Fields k cw' of
             None \<Rightarrow> None | Some (Inl e) \<Rightarrow> Some (Inl e) | Some (Inr cw'') \<Rightarrow> Some (Inr cw'')))"
  by (induction xs arbitrary: cw) (auto split: option.splits sum.splits)

lemma read_helper_append:
  "read_data_container_helper L Fields (xs @ ys) cw =
     (case read_data_container_helper L Fields xs cw of
        None \<Rightarrow> None
      | Some (Inl e) \<Rightarrow> Some (Inl e)
      | Some (Inr cw') \<Rightarrow> read_data_container_helper L Fields ys cw')"
  by (induction xs arbitrary: cw) (auto split: option.splits sum.splits)

lemma populate_prefix:
  assumes "length (field_names c) = length Fields" and "length (data c) = length Fields"
    and "k \<le> length Fields"
    and "\<forall>i<k. read_value L (Fields ! i) (''Enter '' @ field_names c ! i @ '': '')
            default_validator default_error_msg (ws i) = Some (vs i, ws (Suc i))"
  shows "read_data_container_helper L Fields [0..<k] (c, ws 0) =
           Some (Inr (c\<lparr>data := map vs [0..<k] @ drop k (data c)\<rparr>, ws k))"
  using assms(3,4)
proof (induction k)
  case 0
  then show ?case by simp
next
  case (Suc k)
  then have IH: "read_data_container_helper L Fields [0..<k] (c, ws 0) =
           Some (Inr (c\<lparr>data := map vs [0..<k] @ drop k (data c)\<rparr>, ws k))"
    by simp
  from Suc.prems have k: "k < length Fields" by simp
  from Suc.prems have rd: "read_value L (Fields ! k) (''Enter '' @ field_names c ! k @ '': '')
            default_validator default_error_msg (ws k) = Some (vs k, ws (Suc k))"
    by simp
  have upd: "(map vs [0..<k] @ drop k (data c))[k := vs k] =
      map vs [0..<Suc k] @ drop (Suc k) (data c)"
  proof -
    from k assms(2) have "drop k (data c) = data c ! k # drop (Suc k) (data c)"
      by (simp add: Cons_nth_drop_Suc)
    then show ?thesis
      by (simp add: list_update_append)
  qed
  have "read_and_set_field L Fields k (c\<lparr>data := map vs [0..<k] @ drop k (data c)\<rparr>, ws k) =
      Some (Inr (c\<lparr>data := map vs [0..<Suc k] @ drop (Suc k) (data c)\<rparr>, ws (Suc k)))"
    using k assms(1) rd upd
    by (simp add: read_and_set_field_def get_field_name_def set_field_def)
  moreover have "read_data_container_helper L Fields [0..<Suc k] (c, ws 0) =
      read_data_container_helper L Fields ([0..<k] @ [k]) (c, ws 0)"
    by simp
  ultimately show ?case
    using IH by (simp add: read_helper_snoc del: upt_Suc)
qed

text \<open>
  At the end of the input no pass accepts anything, and the call never returns: a conversion
  fails at once, and a read of text keeps the empty string and rejects it.
\<close>

lemma formatted_at_eof:
  "buf s = [] \<Longrightarrow> failbit (snd (formatted mk conv s v)) \<and> buf (snd (formatted mk conv s v)) = []
     \<and> fst (formatted mk conv s v) = v"
  by (simp add: formatted_def sentry_def)

lemma extract_at_eof:
  "T \<noteq> T_other \<Longrightarrow> buf s = [] \<Longrightarrow>
     failbit (snd (extract_value L T s v)) \<and> buf (snd (extract_value L T s v)) = []"
  by (cases T) (simp_all add: formatted_at_eof)

lemma ignore_line_at_eof:
  "buf s = [] \<Longrightarrow> buf (ignore_line s) = [] \<and> (failbit s \<longrightarrow> failbit (ignore_line s))"
  by (simp add: ignore_line_def sentry_def)

lemma body_at_eof:
  assumes "at_eof T st"
  shows "at_eof T (read_value_body L T prompt P err st)"
proof -
  obtain val valid w where st: "st = (val, valid, w)" by (cases st)
  show ?thesis
  proof (cases "T = T_string")
    case True
    with assms st show ?thesis
      by (simp add: at_eof_def read_value_body_def getline_def sentry_def cout_write_def endl_def
          InputValidator_is_valid_def Let_def)
  next
    case False
    obtain x s where ex: "extract_value L T (cin w) val = (x, s)"
      by (cases "extract_value L T (cin w) val")
    with assms st extract_at_eof[of T "cin w" L val]
    have s: "failbit s" "buf s = []"
      by (simp_all add: at_eof_def)
    then have i1: "failbit (ignore_line s)" "buf (ignore_line s) = []"
      using ignore_line_at_eof[of s] by simp_all
    then have "buf (ignore_line (clear (ignore_line s))) = []"
      using ignore_line_at_eof[of "clear (ignore_line s)"] by (simp add: clear_def)
    with i1 ex False assms st show ?thesis
      by (simp add: at_eof_def read_value_body_def Let_def cout_write_def endl_def fail_def)
  qed
qed

lemma loop_at_eof:
  assumes "read_value_loop L T prompt P err st = Some r"
  shows "\<not> at_eof T st"
proof (rule read_value_loop.raw_induct[where P = "\<lambda>L T prompt P err st r. \<not> at_eof T st",
      OF _ assms])
  fix loop L T prompt P err st r
  assume IH: "\<And>L T prompt P err st r. loop L T prompt P err st = Some r \<Longrightarrow> \<not> at_eof T st"
  and step: "(case st of (val, valid, w) \<Rightarrow>
        if \<not> valid then loop L T prompt P err (read_value_body L T prompt P err st)
        else Some (val, w)) = Some r"
  show "\<not> at_eof T st"
  proof
    assume a: "at_eof T st"
    with step have "loop L T prompt P err (read_value_body L T prompt P err st) = Some r"
      by (cases st) (simp add: at_eof_def)
    from IH[OF this] body_at_eof[OF a, of L prompt P err] show False
      by blast
  qed
qed

lemma read_value_at_eof:
  "T \<noteq> T_other \<Longrightarrow> buf (cin w) = [] \<Longrightarrow> read_value L T prompt P err w = None"
  using loop_at_eof[of L T prompt P err "(value_init T, False, w)"]
  by (cases "read_value L T prompt P err w") (auto simp: read_value_def at_eof_def)

text \<open>
  A number that ends the input with no newline after it is converted, but not accepted: the
  conversion runs into the end of the input and sets \<open>eofbit\<close>, the \<open>ignore\<close> that follows
  finds the stream not good and sets \<open>failbit\<close>, and the test of \<open>fail()\<close> after it takes the
  pass for a failed conversion. Nothing is left to read, so the call does not return.
\<close>

lemma number_ending_the_input:
  "read_value_body L T_int prompt P err (val, False, stdin ''7'') =
     (V_int 7, False, \<lparr>cin = \<lparr>buf = [], eofbit = True, failbit = False\<rparr>,
        cout = prompt @ ''Error: Invalid integer format. '' @ err @ [newline]\<rparr>)
   \<and> read_value L T_int prompt P err (stdin ''7'') = None"
proof -
  have b: "read_value_body L T_int prompt P err (value_init T_int, False, stdin ''7'') =
     (V_int 7, False, \<lparr>cin = \<lparr>buf = [], eofbit = True, failbit = False\<rparr>,
        cout = prompt @ ''Error: Invalid integer format. '' @ err @ [newline]\<rparr>)" for val
    by (simp add: run_simps)
  have b': "read_value_body L T_int prompt P err (val, False, stdin ''7'') =
     (V_int 7, False, \<lparr>cin = \<lparr>buf = [], eofbit = True, failbit = False\<rparr>,
        cout = prompt @ ''Error: Invalid integer format. '' @ err @ [newline]\<rparr>)"
    by (simp add: run_simps)
  have "at_eof T_int (read_value_body L T_int prompt P err (value_init T_int, False, stdin ''7''))"
    unfolding b by (simp add: at_eof_def)
  then have "read_value_loop L T_int prompt P err
      (read_value_body L T_int prompt P err (value_init T_int, False, stdin ''7'')) = None"
    using loop_at_eof[of L T_int prompt P err] by (metis not_Some_eq)
  then have "read_value L T_int prompt P err (stdin ''7'') = None"
    unfolding read_value_def
    using loop_continue[of "(value_init T_int, False, stdin ''7'')" L T_int prompt P err]
    by simp
  with b' show ?thesis by simp
qed


text \<open>
  Claim C4. Populating visits the positions \<open>0 .. arity-1\<close> in declared order. Position \<open>i\<close>
  is read by \<open>read_value\<close> at the static type of field \<open>i\<close>, with the prompt
  \<open>"Enter " + name(i) + ": "\<close> and the default, always-true validator, from the streams as the
  reads before it left them (\<open>ws i\<close>), and the value read (\<open>vs i\<close>) is written into slot \<open>i\<close>.
  After the first \<open>k\<close> reads the container holds their values in the slots below \<open>k\<close> and the
  initial values above; if read \<open>k\<close> then never returns, populating never returns either, so
  the fields populated before it keep these values.
\<close>

theorem populate_in_declared_order:
  assumes "DataContainer_ctor Fields names = Inr c0" and "k \<le> length Fields"
    and "\<forall>i<k. read_value L (Fields ! i) (''Enter '' @ names ! i @ '': '')
            default_validator default_error_msg (ws i) = Some (vs i, ws (Suc i))"
  shows "read_data_container_helper L Fields (make_index_sequence k) (c0, ws 0) =
           Some (Inr (\<lparr>data = map vs [0..<k] @ map value_init (drop k Fields),
                       field_names = names\<rparr>, ws k))
    \<and> (k = length Fields \<longrightarrow>
         read_data_container L Fields names (ws 0) =
           Some (Inr (\<lparr>data = map vs [0..<k], field_names = names\<rparr>, ws k)))
    \<and> (k < length Fields
        \<and> read_value L (Fields ! k) (''Enter '' @ names ! k @ '': '')
             default_validator default_error_msg (ws k) = None \<longrightarrow>
         read_data_container L Fields names (ws 0) = None)
    \<and> (\<forall>v. default_validator v)"
proof -
  from assms(1) have c0: "c0 = \<lparr>data = map value_init Fields, field_names = names\<rparr>"
    and len: "length names = length Fields"
    by (simp_all add: ctor_Inr_iff)
  have reads: "\<forall>i<k. read_value L (Fields ! i) (''Enter '' @ field_names c0 ! i @ '': '')
            default_validator default_error_msg (ws i) = Some (vs i, ws (Suc i))"
    using assms(3) c0 by simp
  have pre: "read_data_container_helper L Fields [0..<k] (c0, ws 0) =
           Some (Inr (\<lparr>data = map vs [0..<k] @ map value_init (drop k Fields),
                       field_names = names\<rparr>, ws k))"
    using populate_prefix[of c0 Fields k L ws vs, OF _ _ assms(2) reads] c0 len
    by (simp add: drop_map)
  have full: "read_data_container L Fields names (ws 0) =
           Some (Inr (\<lparr>data = map vs [0..<k], field_names = names\<rparr>, ws k))"
    if "k = length Fields"
    using that pre assms(1) by (simp add: read_data_container_def make_index_sequence_def)
  have stuck: "read_data_container L Fields names (ws 0) = None"
    if k: "k < length Fields"
      and none: "read_value L (Fields ! k) (''Enter '' @ names ! k @ '': '')
             default_validator default_error_msg (ws k) = None"
  proof -
    from k have "[0..<length Fields] = [0..<k] @ (k # [Suc k..<length Fields])"
      by (metis less_imp_le_nat upt_add_eq_append upt_conv_Cons le_add_diff_inverse zero_le
          add_0)
    moreover have "read_and_set_field L Fields k
        (\<lparr>data = map vs [0..<k] @ map value_init (drop k Fields), field_names = names\<rparr>, ws k)
        = None"
      using k len none by (simp add: read_and_set_field_def get_field_name_def)
    ultimately show ?thesis
      using pre assms(1)
      by (simp add: read_data_container_def make_index_sequence_def read_helper_append)
  qed
  show ?thesis
    using pre full stuck by (simp add: make_index_sequence_def default_validator_def)
qed

text \<open>
  Two runs of \<open>DataContainer<int, std::string>\<close> with the names Age and Name. On the lines
  -5 and Alice both fields are read, and -5 is taken as it is. On the line -5 alone the second
  read finds the end of the input and never returns; the age is in its slot by then.
\<close>

theorem populate_in_declared_order_witness:
  "DataContainer_ctor [T_int, T_string] [''Age'', ''Name'']
     = Inr \<lparr>data = [V_int 0, V_string []], field_names = [''Age'', ''Name'']\<rparr>
   \<and> read_data_container plain_lib [T_int, T_string] [''Age'', ''Name'']
        (stdin (''-5'' @ [newline] @ ''Alice'' @ [newline]))
      = Some (Inr (\<lparr>data = [V_int (- 5), V_string ''Alice''], field_names = [''Age'', ''Name'']\<rparr>,
                   \<lparr>cin = \<lparr>buf = [], eofbit = False, failbit = False\<rparr>,
                    cout = ''Enter Age: Enter Name: ''\<rparr>))
   \<and> read_data_container_helper plain_lib [T_int, T_string] (make_index_sequence (Suc 0))
        (\<lparr>data = [V_int 0, V_string []], field_names = [''Age'', ''Name'']\<rparr>,
         stdin (''-5'' @ [newline]))
      = Some (Inr (\<lparr>data = [V_int (- 5), V_string []], field_names = [''Age'', ''Name'']\<rparr>,
                   \<lparr>cin = \<lparr>buf = [], eofbit = False, failbit = False\<rparr>, cout = ''Enter Age: ''\<rparr>))
   \<and> read_value plain_lib T_string ''Enter Name: '' default_validator default_error_msg
        \<lparr>cin = \<lparr>buf = [], eofbit = False, failbit = False\<rparr>, cout = ''Enter Age: ''\<rparr> = None
   \<and> read_data_container plain_lib [T_int, T_string] [''Age'', ''Name'']
        (stdin (''-5'' @ [newline])) = None"
proof -
  let ?c0 = "\<lparr>data = [V_int 0, V_string []], field_names = [''Age'', ''Name'']\<rparr>"
  let ?w1 = "\<lparr>cin = \<lparr>buf = ''Alice'' @ [newline], eofbit = False, failbit = False\<rparr>,
              cout = ''Enter Age: ''\<rparr>"
  let ?w2 = "\<lparr>cin = \<lparr>buf = [], eofbit = False, failbit = False\<rparr>,
              cout = ''Enter Age: Enter Name: ''\<rparr>"
  let ?ws = "\<lambda>i::nat. if i = 0 then stdin (''-5'' @ [newline] @ ''Alice'' @ [newline])
                     else if i = Suc 0 then ?w1 else ?w2"
  let ?vs = "\<lambda>i::nat. if i = 0 then V_int (- 5) else V_string ''Alice''"
  let ?u1 = "\<lparr>cin = \<lparr>buf = [], eofbit = False, failbit = False\<rparr>, cout = ''Enter Age: ''\<rparr>"
  let ?us = "\<lambda>i::nat. if i = 0 then stdin (''-5'' @ [newline]) else ?u1"
  have c: "DataContainer_ctor [T_int, T_string] [''Age'', ''Name''] = Inr ?c0"
    by (simp add: DataContainer_ctor_def)
  have k2: "Suc (Suc 0) \<le> length [T_int, T_string]" and k1: "Suc 0 \<le> length [T_int, T_string]"
    by simp_all
  have r2: "\<forall>i<Suc (Suc 0). read_value plain_lib ([T_int, T_string] ! i)
              (''Enter '' @ [''Age'', ''Name''] ! i @ '': '')
              default_validator default_error_msg (?ws i) = Some (?vs i, ?ws (Suc i))"
    by (simp add: All_less_Suc run_simps)
  have r1: "\<forall>i<Suc 0. read_value plain_lib ([T_int, T_string] ! i)
              (''Enter '' @ [''Age'', ''Name''] ! i @ '': '')
              default_validator default_error_msg (?us i) = Some (?vs i, ?us (Suc i))"
    by (simp add: run_simps)
  have none: "read_value plain_lib T_string ''Enter Name: '' default_validator default_error_msg
        ?u1 = None"
    by (rule read_value_at_eof) simp_all
  show ?thesis
    using c none populate_in_declared_order [OF c k2 r2] populate_in_declared_order [OF c k1 r1]
    by simp
qed

text \<open>
  Claim C9. \<open>print_data_container(container, header)\<close> writes the header and a newline when
  the header is not empty, and nothing for an empty header; then, for each field position in
  declared order, the name, a colon and a space, the value, and a newline. For the two fields
  X = 1 and Y = 2 under the header Report the output is the three lines Report, X: 1, Y: 2.
\<close>

theorem print_data_container_output:
  assumes "DataContainer_ctor Fields names = Inr c0"
  shows "print_data_container L Fields (set_fields ops c0) header w =
           Inr (w\<lparr>cout := cout w @ (if header \<noteq> [] then header @ [newline] else [])
                   @ concat (map (\<lambda>i. names ! i @ '': '' @ put L (get_field i (set_fields ops c0))
                                        @ [newline]) [0..<length Fields])\<rparr>)
    \<and> print_data_container L [T_int, T_int]
         (set_fields [(0, V_int 1), (1, V_int 2)]
            \<lparr>data = [V_int 0, V_int 0], field_names = [''X'', ''Y'']\<rparr>) ''Report'' (stdin [])
       = Inr \<lparr>cin = \<lparr>buf = [], eofbit = False, failbit = False\<rparr>,
              cout = ''Report'' @ [newline] @ ''X: 1'' @ [newline] @ ''Y: 2'' @ [newline]\<rparr>"
proof -
  from assms have names: "field_names (set_fields ops c0) = names"
    and len: "length names = length Fields"
    by (simp_all add: ctor_Inr_iff)
  have lines: "map (field_line L (set_fields ops c0)) [0..<length Fields] =
      map (\<lambda>i. names ! i @ '': '' @ put L (get_field i (set_fields ops c0)) @ [newline])
        [0..<length Fields]"
    using names by (simp add: field_line_def)
  have "\<forall>i \<in> set [0..<length Fields]. i < length (field_names (set_fields ops c0))"
    using names len by simp
  then have "print_data_container_helper L [0..<length Fields] (set_fields ops c0) u =
      Inr (u\<lparr>cout := cout u @ concat (map (field_line L (set_fields ops c0))
                                        [0..<length Fields])\<rparr>)" for u
    by (rule print_helper_output)
  then have general: "print_data_container L Fields (set_fields ops c0) header w =
           Inr (w\<lparr>cout := cout w @ (if header \<noteq> [] then header @ [newline] else [])
                   @ concat (map (\<lambda>i. names ! i @ '': '' @ put L (get_field i (set_fields ops c0))
                                        @ [newline]) [0..<length Fields])\<rparr>)"
    unfolding lines
    by (simp add: print_data_container_def make_index_sequence_def cout_write_def endl_def)
  have "print_data_container L [T_int, T_int]
         (set_fields [(0, V_int 1), (1, V_int 2)]
            \<lparr>data = [V_int 0, V_int 0], field_names = [''X'', ''Y'']\<rparr>) ''Report'' (stdin [])
       = Inr \<lparr>cin = \<lparr>buf = [], eofbit = False, failbit = False\<rparr>,
              cout = ''Report'' @ [newline] @ ''X: 1'' @ [newline] @ ''Y: 2'' @ [newline]\<rparr>"
    by (simp add: print_data_container_def make_index_sequence_def print_field_def
        get_field_name_def get_field_def set_fields_def set_field_def cout_write_def endl_def
        stdin_def show_int_def show_nat.simps digit_char_def newline_def)
  with general show ?thesis
    by simp
qed

text \<open>The witness prints a record of a name and an age with no header.\<close>

theorem print_data_container_output_witness:
  "DataContainer_ctor [T_string, T_int] [''Name'', ''Age'']
     = Inr \<lparr>data = [V_string [], V_int 0], field_names = [''Name'', ''Age'']\<rparr>
   \<and> print_data_container plain_lib [T_string, T_int]
        (set_fields [(0, V_string ''Alice''), (1, V_int (- 5))]
           \<lparr>data = [V_string [], V_int 0], field_names = [''Name'', ''Age'']\<rparr>) [] (stdin [])
      = Inr \<lparr>cin = \<lparr>buf = [], eofbit = False, failbit = False\<rparr>,
             cout = ''Name: Alice'' @ [newline] @ ''Age: -5'' @ [newline]\<rparr>"
proof -
  have c: "DataContainer_ctor [T_string, T_int] [''Name'', ''Age'']
     = Inr \<lparr>data = [V_string [], V_int 0], field_names = [''Name'', ''Age'']\<rparr>"
    by (simp add: DataContainer_ctor_def)
  show ?thesis
    using c print_data_container_output [OF c, of plain_lib
        "[(0, V_string ''Alice''), (1, V_int (- 5))]" "[]" "stdin []"]
    by (simp add: get_field_def set_fields_def set_field_def stdin_def show_int_def
        show_nat.simps digit_char_def newline_def)
qed

text \<open>
  Claim C10. On a constructed container, whatever was stored in it since, populating and
  printing never throw \<open>std::out_of_range\<close>: the indices they pass to \<open>get_field_name\<close> come
  from \<open>std::make_index_sequence<sizeof...(Fields)>\<close>, each is below \<open>size()\<close>, and
  \<open>get_field_name\<close> returns a name for each. No other exception leaves them either.
\<close>

theorem bulk_operations_never_out_of_range:
  assumes "DataContainer_ctor Fields names = Inr c0"
  shows "(\<forall>i \<in> set (make_index_sequence (length Fields)).
            i < size_fields Fields (set_fields ops c0)
            \<and> get_field_name i (set_fields ops c0) = Inr (names ! i))
    \<and> read_data_container_helper L Fields (make_index_sequence (length Fields))
         (set_fields ops c0, w) \<noteq> Some (Inl e)
    \<and> read_data_container L Fields names w \<noteq> Some (Inl e)
    \<and> print_data_container L Fields (set_fields ops c0) header w \<noteq> Inl e"
proof -
  from assms have names: "field_names (set_fields ops c0) = names" "field_names c0 = names"
    and len: "length names = length Fields"
    by (simp_all add: ctor_Inr_iff)
  have idx: "\<forall>i \<in> set (make_index_sequence (length Fields)).
            i < size_fields Fields (set_fields ops c0)
            \<and> get_field_name i (set_fields ops c0) = Inr (names ! i)"
    using names len by (simp add: make_index_sequence_def size_fields_def get_field_name_def)
  have in_range: "\<forall>i \<in> set (make_index_sequence (length Fields)).
      i < length (field_names (set_fields ops c0))"
    using names len by (simp add: make_index_sequence_def)
  have in_range0: "\<forall>i \<in> set (make_index_sequence (length Fields)). i < length (field_names c0)"
    using names len by (simp add: make_index_sequence_def)
  have rd: "read_data_container_helper L Fields (make_index_sequence (length Fields))
         (set_fields ops c0, w) \<noteq> Some (Inl e)"
    using in_range by (rule read_helper_no_throw)
  have "read_data_container_helper L Fields (make_index_sequence (length Fields)) (c0, w)
      \<noteq> Some (Inl e)"
    using in_range0 by (rule read_helper_no_throw)
  then have rdc: "read_data_container L Fields names w \<noteq> Some (Inl e)"
    using assms by (simp add: read_data_container_def)
  have pr: "print_data_container L Fields (set_fields ops c0) header w \<noteq> Inl e"
    using print_helper_output[OF in_range]
    by (simp add: print_data_container_def)
  from idx rd rdc pr show ?thesis
    by blast
qed

theorem bulk_operations_never_out_of_range_witness:
  "DataContainer_ctor [T_int, T_string] [''Age'', ''Name'']
     = Inr \<lparr>data = [V_int 0, V_string []], field_names = [''Age'', ''Name'']\<rparr>
   \<and> get_field_name 0 (set_fields [(1, V_string ''Bob'')]
        \<lparr>data = [V_int 0, V_string []], field_names = [''Age'', ''Name'']\<rparr>) = Inr ''Age''
   \<and> get_field_name 1 (set_fields [(1, V_string ''Bob'')]
        \<lparr>data = [V_int 0, V_string []], field_names = [''Age'', ''Name'']\<rparr>) = Inr ''Name''
   \<and> read_data_container plain_lib [T_int, T_string] [''Age'', ''Name'']
        (stdin (''-5'' @ [newline] @ ''Alice'' @ [newline]))
      \<noteq> Some (Inl (out_of_range ''Field index out of range''))
   \<and> print_data_container plain_lib [T_int, T_string] (set_fields [(1, V_string ''Bob'')]
        \<lparr>data = [V_int 0, V_string []], field_names = [''Age'', ''Name'']\<rparr>) ''Report'' (stdin [])
      \<noteq> Inl (out_of_range ''Field index out of range'')"
proof -
  have c: "DataContainer_ctor [T_int, T_string] [''Age'', ''Name'']
     = Inr \<lparr>data = [V_int 0, V_string []], field_names = [''Age'', ''Name'']\<rparr>"
    by (simp add: DataContainer_ctor_def)
  show ?thesis
    using c bulk_operations_never_out_of_range [OF c, of "[(1, V_string ''Bob'')]" plain_lib
        "stdin (''-5'' @ [newline] @ ''Alice'' @ [newline])"
        "out_of_range ''Field index out of range''" "''Report''"]
      bulk_operations_never_out_of_range [OF c, of "[(1, V_string ''Bob'')]" plain_lib
        "stdin []" "out_of_range ''Field index out of range''" "''Report''"]
    by (simp add: make_index_sequence_def)
qed

section \<open>The line discipline of the reader\<close>

lemma isdigit_not_newline: "isdigit c \<Longrightarrow> c \<noteq> newline"
  by (auto simp: isdigit_def newline_def)

lemma isspace_newline: "isspace newline"
  by (simp add: isspace_def newline_def)

lemma get_int_stays_on_line: "stays_on_line get_int"
  unfolding stays_on_line_def
proof (intro allI impI)
  fix b :: string
  assume b: "b \<noteq> [] \<and> \<not> isspace (hd b)"
  define b1 where "b1 = (if b \<noteq> [] \<and> (hd b = CHR ''-'' \<or> hd b = CHR ''+'') then tl b else b)"
  define sgn where "sgn = (if b \<noteq> [] \<and> (hd b = CHR ''-'' \<or> hd b = CHR ''+'') then [hd b] else [])"
  have split: "b = (sgn @ takeWhile isdigit b1) @ dropWhile isdigit b1"
    using b by (auto simp: sgn_def b1_def)
  have "newline \<notin> set sgn"
    by (auto simp: sgn_def newline_def)
  moreover have "newline \<notin> set (takeWhile isdigit b1)"
    using isdigit_not_newline by (metis set_takeWhileD)
  ultimately have nl: "newline \<notin> set (sgn @ takeWhile isdigit b1)" by simp
  obtain x failed rest eof where c: "get_int b = (x, failed, rest, eof)"
    by (metis prod_cases4)
  then have r: "rest = dropWhile isdigit b1" and e: "eof = (rest = [])"
    by (auto simp: get_int_def Let_def b1_def split: if_splits)
  from split r have "b = (sgn @ takeWhile isdigit b1) @ rest" by simp
  with nl have "\<exists>pre. b = pre @ rest \<and> newline \<notin> set pre" by blast
  with e show "case get_int b of (x, failed, rest, eof) \<Rightarrow>
           (\<exists>pre. b = pre @ rest \<and> newline \<notin> set pre) \<and> (eof \<longrightarrow> rest = [])"
    unfolding c by simp
qed

lemma get_char_stays_on_line: "stays_on_line get_char"
  unfolding stays_on_line_def
proof (intro allI impI)
  fix b :: string
  assume b: "b \<noteq> [] \<and> \<not> isspace (hd b)"
  then obtain c r where cr: "b = c # r" and c: "c \<noteq> newline"
    using isspace_newline by (cases b) auto
  then have "b = [c] @ r \<and> newline \<notin> set [c]"
    by auto
  then have "\<exists>pre. b = pre @ r \<and> newline \<notin> set pre"
    by blast
  then show "case get_char b of (x, failed, rest, eof) \<Rightarrow>
           (\<exists>pre. b = pre @ rest \<and> newline \<notin> set pre) \<and> (eof \<longrightarrow> rest = [])"
    by (simp add: get_char_def cr)
qed

lemma rest_of_line:
  assumes "line @ newline # rest = pre @ r" and "newline \<notin> set pre" and "newline \<notin> set line"
  shows "\<exists>l2. r = l2 @ newline # rest \<and> newline \<notin> set l2"
proof -
  from assms(1) consider us where "line = pre @ us" "r = us @ newline # rest"
    | us where "pre = line @ us" "us @ r = newline # rest"
    by (auto simp: append_eq_append_conv2)
  then show ?thesis
  proof cases
    case 1
    with assms(3) show ?thesis by auto
  next
    case 2
    with assms(2) have "us = []"
      by (cases us) auto
    with 2 show ?thesis by auto
  qed
qed

lemma formatted_on_line:
  assumes "stays_on_line conv" and "good s"
    and "dropWhile isspace (buf s) = line @ newline # rest" and "line \<noteq> []"
    and "newline \<notin> set line"
  shows "\<exists>x failed l2. formatted mk conv s v =
            (mk x, \<lparr>buf = l2 @ newline # rest, eofbit = False, failbit = failed\<rparr>)
          \<and> newline \<notin> set l2"
proof -
  let ?b = "line @ newline # rest"
  have "dropWhile isspace (buf s) \<noteq> []"
    using assms(3) by simp
  then have "\<not> isspace (hd (dropWhile isspace (buf s)))"
    by (rule hd_dropWhile)
  with assms(3) have hd: "?b \<noteq> [] \<and> \<not> isspace (hd ?b)" by simp
  obtain x failed r eof where c: "conv ?b = (x, failed, r, eof)"
    by (metis prod_cases4)
  from assms(1) have "?b \<noteq> [] \<and> \<not> isspace (hd ?b) \<longrightarrow> (case conv ?b of (x, failed, rest, eof) \<Rightarrow>
           (\<exists>pre. ?b = pre @ rest \<and> newline \<notin> set pre) \<and> (eof \<longrightarrow> rest = []))"
    unfolding stays_on_line_def by (rule spec)
  from this hd have "case conv ?b of (x, failed, rest, eof) \<Rightarrow>
           (\<exists>pre. ?b = pre @ rest \<and> newline \<notin> set pre) \<and> (eof \<longrightarrow> rest = [])"
    by (rule mp)
  with c obtain pre where pre: "?b = pre @ r" "newline \<notin> set pre" and eof: "eof \<longrightarrow> r = []"
    by auto
  from rest_of_line[OF pre assms(5)] obtain l2 where l2: "r = l2 @ newline # rest" "newline \<notin> set l2"
    by blast
  with eof have "\<not> eof" by auto
  with assms(2,3) c l2 have "formatted mk conv s v =
      (mk x, \<lparr>buf = l2 @ newline # rest, eofbit = False, failbit = failed\<rparr>)"
    by (cases s) (simp add: formatted_def sentry_def good_def)
  with l2 show ?thesis by blast
qed

lemma ignore_line_on_line:
  assumes "newline \<notin> set l2"
  shows "ignore_line \<lparr>buf = l2 @ newline # rest, eofbit = False, failbit = False\<rparr> =
           \<lparr>buf = rest, eofbit = False, failbit = False\<rparr>"
proof -
  from assms have "dropWhile (\<lambda>c. c \<noteq> newline) (l2 @ newline # rest) = newline # rest"
    by (induction l2) auto
  then show ?thesis
    by (simp add: ignore_line_def sentry_def good_def)
qed

lemma ignore_line_failed:
  "ignore_line \<lparr>buf = b, eofbit = e, failbit = True\<rparr> = \<lparr>buf = b, eofbit = e, failbit = True\<rparr>"
  by (simp add: ignore_line_def sentry_def good_def)

lemma body_writes_prompt:
  "\<exists>out. cout (snd (snd (read_value_body L T prompt P err st))) =
            cout (snd (snd st)) @ prompt @ out"
  by (cases st) (auto simp: read_value_body_def Let_def cout_write_def endl_def
      split: prod.splits)

lemma body_text_on_line:
  assumes "good (cin w)" and "buf (cin w) = line @ newline # rest" and "newline \<notin> set line"
  shows "fst (read_value_body L T_string prompt P err (val, valid, w)) = V_string line
     \<and> cin (snd (snd (read_value_body L T_string prompt P err (val, valid, w)))) =
         \<lparr>buf = rest, eofbit = False, failbit = False\<rparr>"
proof -
  from assms(3) have tw: "takeWhile (\<lambda>c. c \<noteq> newline) (line @ newline # rest) = line"
    and dw: "dropWhile (\<lambda>c. c \<noteq> newline) (line @ newline # rest) = newline # rest"
    by (induction line) auto
  obtain b e f where s: "cin w = \<lparr>buf = b, eofbit = e, failbit = f\<rparr>"
    by (cases "cin w")
  with assms(1,2) have g: "getline (cin (cout_write prompt w)) (the_string val) =
      (line, \<lparr>buf = rest, eofbit = False, failbit = False\<rparr>)"
    using tw dw by (simp add: getline_def sentry_def good_def cout_write_def)
  show ?thesis
    using g by (simp add: read_value_body_def Let_def endl_def cout_write_def)
qed

lemma body_numeric_on_line:
  assumes "T \<noteq> T_string"
    and "extract_value L T (cin w) val =
           (x, \<lparr>buf = l2 @ newline # rest, eofbit = False, failbit = failed\<rparr>)"
    and "newline \<notin> set l2"
  shows "cin (snd (snd (read_value_body L T prompt P err (val, False, w)))) =
           \<lparr>buf = rest, eofbit = False, failbit = False\<rparr>
     \<and> (failed \<longrightarrow>
          \<not> fst (snd (read_value_body L T prompt P err (val, False, w)))
          \<and> cout (snd (snd (read_value_body L T prompt P err (val, False, w)))) =
              cout w @ prompt @ ''Error: Invalid '' @ InputValidator_type_name T @ '' format. ''
                @ err @ [newline])"
proof (cases failed)
  case True
  with assms show ?thesis
    by (simp add: read_value_body_def Let_def cout_write_def endl_def ignore_line_failed
        fail_def clear_def ignore_line_on_line)
next
  case False
  with assms show ?thesis
    by (simp add: read_value_body_def Let_def cout_write_def endl_def
        fail_def ignore_line_on_line)
qed

lemma extract_on_line:
  assumes "T = T_int \<or> T = T_char \<or> (T = T_double \<and> stays_on_line (get_double L))"
    and "good s" and "dropWhile isspace (buf s) = line @ newline # rest" and "line \<noteq> []"
    and "newline \<notin> set line"
  shows "\<exists>x failed l2. extract_value L T s v =
            (x, \<lparr>buf = l2 @ newline # rest, eofbit = False, failbit = failed\<rparr>)
          \<and> newline \<notin> set l2"
proof -
  from assms(1) consider "T = T_int" | "T = T_char" | "T = T_double" "stays_on_line (get_double L)"
    by blast
  then show ?thesis
  proof cases
    case 1
    with formatted_on_line[OF get_int_stays_on_line assms(2-5), of V_int v] show ?thesis
      by auto
  next
    case 2
    with formatted_on_line[OF get_char_stays_on_line assms(2-5), of V_char v] show ?thesis
      by auto
  next
    case 3
    with formatted_on_line[OF 3(2) assms(2-5), of V_double v] show ?thesis
      by auto
  qed
qed

text \<open>
  Claim C8, as amended. On a pass of the retry loop that starts with the stream in good state:
  for \<open>int\<close>, \<open>char\<close> and \<open>double\<close>, \<open>read_value\<close> skips the blanks, converts as much of the
  line it then stands on as the type takes, and discards what is left of that line through its
  newline, whether the conversion succeeded or not; for text it takes one full line. When the
  conversion fails it writes \<open>"Error: Invalid " + type_name + " format. " + error_msg\<close> and a
  newline, leaves \<open>valid\<close> false, and the loop goes on with the next pass, which writes the
  prompt again.
\<close>

theorem attempt_consumes_line:
  assumes "good (cin w)" and "newline \<notin> set line"
    and "st' = read_value_body L T prompt validator error_msg (val, False, w)"
  shows "(T = T_string \<and> buf (cin w) = line @ newline # rest \<longrightarrow>
            fst st' = V_string line
          \<and> cin (snd (snd st')) = \<lparr>buf = rest, eofbit = False, failbit = False\<rparr>)
     \<and> ((T = T_int \<or> T = T_char \<or> (T = T_double \<and> stays_on_line (get_double L)))
         \<and> line \<noteq> [] \<and> dropWhile isspace (buf (cin w)) = line @ newline # rest \<longrightarrow>
            cin (snd (snd st')) = \<lparr>buf = rest, eofbit = False, failbit = False\<rparr>
          \<and> (fail (snd (extract_value L T (cin w) val)) \<longrightarrow>
               \<not> accepted st'
             \<and> cout (snd (snd st')) =
                 cout w @ prompt @ ''Error: Invalid '' @ InputValidator_type_name T
                   @ '' format. '' @ error_msg @ [newline]
             \<and> read_value_loop L T prompt validator error_msg st' =
                 read_value_loop L T prompt validator error_msg
                   (read_value_body L T prompt validator error_msg st')
             \<and> (\<exists>out. cout (snd (snd (read_value_body L T prompt validator error_msg st'))) =
                        cout (snd (snd st')) @ prompt @ out)))"
proof -
  have str: "fst st' = V_string line
          \<and> cin (snd (snd st')) = \<lparr>buf = rest, eofbit = False, failbit = False\<rparr>"
    if "T = T_string \<and> buf (cin w) = line @ newline # rest"
    using that assms(3)
      body_text_on_line[OF assms(1) _ assms(2), of rest L prompt validator error_msg val False]
    by simp
  have num: "cin (snd (snd st')) = \<lparr>buf = rest, eofbit = False, failbit = False\<rparr>
          \<and> (fail (snd (extract_value L T (cin w) val)) \<longrightarrow>
               \<not> accepted st'
             \<and> cout (snd (snd st')) =
                 cout w @ prompt @ ''Error: Invalid '' @ InputValidator_type_name T
                   @ '' format. '' @ error_msg @ [newline]
             \<and> read_value_loop L T prompt validator error_msg st' =
                 read_value_loop L T prompt validator error_msg
                   (read_value_body L T prompt validator error_msg st')
             \<and> (\<exists>out. cout (snd (snd (read_value_body L T prompt validator error_msg st'))) =
                        cout (snd (snd st')) @ prompt @ out))"
    if a: "(T = T_int \<or> T = T_char \<or> (T = T_double \<and> stays_on_line (get_double L)))
         \<and> line \<noteq> [] \<and> dropWhile isspace (buf (cin w)) = line @ newline # rest"
  proof -
    from a have T: "T \<noteq> T_string" by auto
    from a extract_on_line[of T L "cin w" line rest val] assms(1,2)
    obtain x failed l2 where ex: "extract_value L T (cin w) val =
              (x, \<lparr>buf = l2 @ newline # rest, eofbit = False, failbit = failed\<rparr>)"
      and l2: "newline \<notin> set l2"
      by blast
    note body = body_numeric_on_line[OF T ex l2, of prompt validator error_msg]
    from body assms(3)
    have c: "cin (snd (snd st')) = \<lparr>buf = rest, eofbit = False, failbit = False\<rparr>"
      by simp
    have f: "fail (snd (extract_value L T (cin w) val)) = failed"
      using ex by (simp add: fail_def)
    have "\<not> accepted st'
             \<and> cout (snd (snd st')) =
                 cout w @ prompt @ ''Error: Invalid '' @ InputValidator_type_name T
                   @ '' format. '' @ error_msg @ [newline]
             \<and> read_value_loop L T prompt validator error_msg st' =
                 read_value_loop L T prompt validator error_msg
                   (read_value_body L T prompt validator error_msg st')
             \<and> (\<exists>out. cout (snd (snd (read_value_body L T prompt validator error_msg st'))) =
                        cout (snd (snd st')) @ prompt @ out)"
      if "fail (snd (extract_value L T (cin w) val))"
    proof -
      from that f have failed by simp
      with body assms(3) have na: "\<not> fst (snd st')"
        and out: "cout (snd (snd st')) =
                 cout w @ prompt @ ''Error: Invalid '' @ InputValidator_type_name T
                   @ '' format. '' @ error_msg @ [newline]"
        by simp_all
      from na have "read_value_loop L T prompt validator error_msg st' =
                 read_value_loop L T prompt validator error_msg
                   (read_value_body L T prompt validator error_msg st')"
        by (rule loop_continue)
      with na out body_writes_prompt[of L T prompt validator error_msg st']
      show ?thesis
        by (simp add: accepted_def)
    qed
    with c show ?thesis by blast
  qed
  from str num show ?thesis by blast
qed

theorem attempt_consumes_line_witness:
  "good (cin (stdin (''abc def'' @ [newline] @ ''7'' @ [newline])))
   \<and> newline \<notin> set ''abc def''
   \<and> dropWhile isspace (buf (cin (stdin (''abc def'' @ [newline] @ ''7'' @ [newline]))))
       = ''abc def'' @ newline # (''7'' @ [newline])
   \<and> fail (snd (extract_value plain_lib T_int
        (cin (stdin (''abc def'' @ [newline] @ ''7'' @ [newline]))) (V_int 0)))
   \<and> read_value_body plain_lib T_int ''> '' default_validator ''Again.''
        (V_int 0, False, stdin (''abc def'' @ [newline] @ ''7'' @ [newline]))
      = (V_int 0, False,
         \<lparr>cin = \<lparr>buf = ''7'' @ [newline], eofbit = False, failbit = False\<rparr>,
          cout = ''> Error: Invalid integer format. Again.'' @ [newline]\<rparr>)
   \<and> good (cin (stdin (''Alice Smith'' @ [newline] @ ''30'' @ [newline])))
   \<and> newline \<notin> set ''Alice Smith''
   \<and> read_value_body plain_lib T_string ''> '' default_validator ''Again.''
        (V_string [], False, stdin (''Alice Smith'' @ [newline] @ ''30'' @ [newline]))
      = (V_string ''Alice Smith'', True,
         \<lparr>cin = \<lparr>buf = ''30'' @ [newline], eofbit = False, failbit = False\<rparr>, cout = ''> ''\<rparr>)"
  using attempt_consumes_line [where w = "stdin (''abc def'' @ [newline] @ ''7'' @ [newline])"
      and line = "''abc def''" and rest = "''7'' @ [newline]" and L = plain_lib and T = T_int
      and prompt = "''> ''" and validator = default_validator and error_msg = "''Again.''"
      and val = "V_int 0", OF _ _ refl]
    attempt_consumes_line [where w = "stdin (''Alice Smith'' @ [newline] @ ''30'' @ [newline])"
      and line = "''Alice Smith''" and rest = "''30'' @ [newline]" and L = plain_lib
      and T = T_string and prompt = "''> ''" and validator = default_validator
      and error_msg = "''Again.''" and val = "V_string []", OF _ _ refl]
  by (simp add: run_simps accepted_def)

text \<open>
  Claim C8 as the specification states it fails: a pass over a number does not stop after
  one blank-delimited token. On the input \<open>15 7\<close>, newline, \<open>8\<close>, newline, the pass that reads 15
  takes the whole first line with it, and \<open>read_number<int>\<close> with the bounds 1 and 10 returns
  8 where reading token by token would return 7.
\<close>

theorem attempt_one_token_counterexample:
  "buf (cin (snd (snd (read_value_body plain_lib T_int ''> '' (range_validator (V_int 1) (V_int 10))
       ''Again.'' (V_int 0, False, stdin (''15 7'' @ [newline] @ ''8'' @ [newline]))))))
     = ''8'' @ [newline]
   \<and> read_number plain_lib T_int ''> '' (V_int 1) (V_int 10)
        (stdin (''15 7'' @ [newline] @ ''8'' @ [newline]))
      = Some (V_int 8, \<lparr>cin = \<lparr>buf = [], eofbit = False, failbit = False\<rparr>,
                cout = ''> Please enter a number between 1 and 10.'' @ [newline] @ ''> ''\<rparr>)"
  by (simp add: read_number_def range_validator_def range_error_msg_def show_int_def
      show_nat.simps digit_char_def run_simps)

end
